theory Spec2Isabelle
  imports Complex_Main
begin

section \<open>Python values used by the password engine\<close>

text \<open>
  A candidate password is a Python \<open>str\<close>. It is modelled as a \<open>string\<close> of ASCII
  characters; \<open>str.lower\<close>, \<open>str.islower\<close>, \<open>str.isupper\<close> and \<open>str.isdigit\<close> are
  given on the ASCII range, where they agree with Python. Python floats are read as
  real numbers. An exception is a value of \<open>py_error\<close> on the left of a sum.
\<close>

datatype py_error = ZeroDivisionError

definition ascii_lowercase :: string where
  "ascii_lowercase = ''abcdefghijklmnopqrstuvwxyz''"

definition ascii_uppercase :: string where
  "ascii_uppercase = ''ABCDEFGHIJKLMNOPQRSTUVWXYZ''"

definition digits :: string where
  "digits = ''0123456789''"

definition islower :: "char \<Rightarrow> bool" where
  "islower c = (c \<in> set ascii_lowercase)"

definition isupper :: "char \<Rightarrow> bool" where
  "isupper c = (c \<in> set ascii_uppercase)"

definition isdigit :: "char \<Rightarrow> bool" where
  "isdigit c = (c \<in> set digits)"

definition lower_char :: "char \<Rightarrow> char" where
  "lower_char c = (case map_of (zip ascii_uppercase ascii_lowercase) c of
                     Some l \<Rightarrow> l | None \<Rightarrow> c)"

definition upper_char :: "char \<Rightarrow> char" where
  "upper_char c = (case map_of (zip ascii_lowercase ascii_uppercase) c of
                     Some u \<Rightarrow> u | None \<Rightarrow> c)"

definition lower :: "string \<Rightarrow> string" where
  "lower s = map lower_char s"

text \<open>\<open>s.startswith(p)\<close> and the substring test \<open>sub in s\<close>.\<close>

definition startswith :: "string \<Rightarrow> string \<Rightarrow> bool" where
  "startswith s p = (take (length p) s = p)"

fun py_in :: "string \<Rightarrow> string \<Rightarrow> bool" where
  "py_in sub [] = (sub = [])"
| "py_in sub (c # s) = (startswith (c # s) sub \<or> py_in sub s)"

text \<open>\<open>s.replace(a, b)\<close> for one-character \<open>a\<close> and \<open>b\<close>.\<close>

definition replace_char :: "char \<Rightarrow> char \<Rightarrow> string \<Rightarrow> string" where
  "replace_char a b s = map (\<lambda>c. if c = a then b else c) s"

text \<open>\<open>str(n)\<close> for a natural number.\<close>

function str_nat :: "nat \<Rightarrow> string" where
  "str_nat n = (if n < 10 then [digits ! n] else str_nat (n div 10) @ [digits ! (n mod 10)])"
  by pat_completeness auto
termination
  by (relation "measure (\<lambda>n. n)") auto

text \<open>\<open>int(x)\<close> on a float truncates towards zero.\<close>

definition py_int :: "real \<Rightarrow> int" where
  "py_int x = (if 0 \<le> x then \<lfloor>x\<rfloor> else \<lceil>x\<rceil>)"

section \<open>Module constants\<close>

definition COMMON_PASSWORDS :: "string list" where
  "COMMON_PASSWORDS =
     [''password'', ''123456'', ''12345678'', ''qwerty'', ''abc123'', ''monkey'', ''1234567'',
      ''letmein'', ''trustno1'', ''dragon'', ''baseball'', ''111111'', ''iloveyou'', ''master'',
      ''sunshine'', ''ashley'', ''bailey'', ''passw0rd'', ''shadow'', ''123123'']"

definition KEYBOARD_PATTERNS :: "string list" where
  "KEYBOARD_PATTERNS =
     [''qwerty'', ''qwertyuiop'', ''asdf'', ''asdfgh'', ''asdfghjkl'', ''zxcv'', ''zxcvbnm'',
      ''12345'', ''123456'', ''1234567'', ''12345678'', ''123456789'', ''1234567890'',
      ''qaz'', ''wsx'', ''edc'', ''rfv'', ''tgb'', ''yhn'', ''ujm'', ''ik'', ''ol'', ''p'']"

text \<open>The dictionary in its insertion order, which is the order \<open>items()\<close> iterates in.\<close>

definition LEET_SUBSTITUTIONS :: "(char \<times> string) list" where
  "LEET_SUBSTITUTIONS =
     [(CHR ''a'', ''@4''), (CHR ''e'', ''3''), (CHR ''i'', ''1!''), (CHR ''o'', ''0''),
      (CHR ''s'', ''5$''), (CHR ''t'', ''7''), (CHR ''l'', ''1''), (CHR ''g'', ''9''),
      (CHR ''b'', ''6''), (CHR ''z'', ''2'')]"

definition CONFUSING_CHARS :: "char set" where
  "CONFUSING_CHARS = set ''1lI0O''"

text \<open>The symbol string \<open>"!@#$%^&*()_+-=[]{}|;:,.<>?"\<close> of the scorer; the character class
  of the two regular expressions of the matcher lists the same characters.\<close>

definition SYMBOLS :: string where
  "SYMBOLS = ''!@#$%^&*()_+-=[]{}|;:,.<>?''"

section \<open>Similarity matcher\<close>

definition reverse_leet_speak :: "string \<Rightarrow> string" where
  "reverse_leet_speak password =
     foldl (\<lambda>result (char, substitutions).
              foldl (\<lambda>result sub. replace_char sub char result) result substitutions)
       password LEET_SUBSTITUTIONS"

text \<open>One row of the dynamic programme: the inner loop over \<open>enumerate(s2)\<close>.\<close>

definition edit_row :: "nat list \<Rightarrow> nat \<Rightarrow> char \<Rightarrow> string \<Rightarrow> nat list" where
  "edit_row previous_row i c1 s2 =
     foldl (\<lambda>current_row (j, c2).
              let insertions = previous_row ! (j + 1) + 1;
                  deletions = current_row ! j + 1;
                  substitutions = previous_row ! j + (if c1 \<noteq> c2 then 1 else 0)
              in current_row @ [min insertions (min deletions substitutions)])
       [i + 1] (enumerate 0 s2)"

definition edit_rows :: "string \<Rightarrow> string \<Rightarrow> nat list" where
  "edit_rows s1 s2 =
     foldl (\<lambda>previous_row (i, c1). edit_row previous_row i c1 s2)
       [0 ..< length s2 + 1] (enumerate 0 s1)"

text \<open>The function calls itself once, with the arguments swapped, when the first is the
  shorter one.\<close>

definition simple_edit_distance :: "string \<Rightarrow> string \<Rightarrow> nat" where
  "simple_edit_distance a b =
     (let (s1, s2) = (if length a < length b then (b, a) else (a, b)) in
      if s2 = [] then length s1
      else if length s1 - length s2 > 2 then 3
      else last (edit_rows s1 s2))"

text \<open>
  \<open>re.sub(r'^[...]*', '', s)\<close> removes the leading run of symbols.
  \<open>re.sub(r'[...0-9]*$', '', s)\<close> removes the trailing run of symbols and digits; \<open>$\<close>
  also matches just before a final newline, which then stays.
\<close>

definition strip_leading :: "string \<Rightarrow> string" where
  "strip_leading s = dropWhile (\<lambda>c. c \<in> set SYMBOLS) s"

definition strip_trailing :: "string \<Rightarrow> string" where
  "strip_trailing s =
     (let cls = (\<lambda>c. c \<in> set SYMBOLS \<or> c \<in> set digits) in
      if s \<noteq> [] \<and> last s = CHR 0x0A
      then rev (dropWhile cls (rev (butlast s))) @ [CHR 0x0A]
      else rev (dropWhile cls (rev s)))"

definition is_similar_password :: "string \<Rightarrow> string \<Rightarrow> bool" where
  "is_similar_password password common_pwd =
     (let cleaned_password = strip_trailing (strip_leading password);
          deleet_password = reverse_leet_speak cleaned_password
      in deleet_password = common_pwd \<or> cleaned_password = common_pwd \<or>
         simple_edit_distance deleet_password common_pwd \<le> 2)"

definition check_common_passwords :: "string \<Rightarrow> bool \<times> real" where
  "check_common_passwords password =
     (let password_lower = lower password in
      if password_lower \<in> set (map lower COMMON_PASSWORDS) then (True, 0.9)
      else if list_ex (\<lambda>common_pwd. is_similar_password password_lower (lower common_pwd))
                COMMON_PASSWORDS
      then (True, 0.7)
      else (False, 0.0))"

section \<open>Lexical pattern library\<close>

text \<open>A finding is the dictionary with the keys \<open>type\<close>, \<open>description\<close> and \<open>penalty\<close>.\<close>

record finding =
  type :: string
  description :: string
  penalty :: real

definition quoted :: "string \<Rightarrow> string" where
  "quoted s = [CHR 0x27] @ s @ [CHR 0x27]"

text \<open>Keyboard sequences.\<close>

definition keyboard_sequences :: "string \<Rightarrow> finding list" where
  "keyboard_sequences password_lower =
     map (\<lambda>pattern. \<lparr>type = ''keyboard_sequence'',
                      description = ''Contains keyboard sequence '' @ quoted pattern,
                      penalty = 0.3\<rparr>)
       (filter (\<lambda>pattern. py_in pattern password_lower) KEYBOARD_PATTERNS)"

text \<open>Repeated characters. Python iterates over \<open>set(password)\<close> in an order it does not
  specify; the model takes the characters in the order of their first occurrence.\<close>

definition repeated_characters :: "string \<Rightarrow> finding list" where
  "repeated_characters password =
     map (\<lambda>char. \<lparr>type = ''repeated_character'',
                   description = ''Character '' @ quoted [char] @ '' repeats '' @
                                 str_nat (count_list password char) @ '' times'',
                   penalty = 0.2 * (real (count_list password char) - 2)\<rparr>)
       (filter (\<lambda>char. count_list password char \<ge> 3) (remdups password))"

text \<open>Repeated tokens: the first token length in \<open>range(2, len // 2 + 1)\<close> that matches.\<close>

definition repeated_tokens :: "string \<Rightarrow> finding list" where
  "repeated_tokens password =
     (let n = length password in
      if n \<ge> 6 then
        (case find (\<lambda>i. let token = take i password in
                         concat (replicate (n div i) token) =
                         take (length token * (n div i)) password)
                [2 ..< n div 2 + 1] of
           Some i \<Rightarrow> [\<lparr>type = ''repeated_token'',
                       description = ''Repeating pattern '' @ quoted (take i password),
                       penalty = 0.4\<rparr>]
         | None \<Rightarrow> [])
      else [])"

text \<open>Year patterns: \<open>range(1950, current_year + 10)\<close> with \<open>current_year = 2025\<close>.\<close>

definition year_patterns :: "string \<Rightarrow> finding list" where
  "year_patterns password =
     map (\<lambda>year. \<lparr>type = ''year_pattern'',
                   description = ''Contains year '' @ quoted (str_nat year),
                   penalty = 0.15\<rparr>)
       (filter (\<lambda>year. py_in (str_nat year) password) [1950 ..< 2025 + 10])"

text \<open>Number sequences, forwards or reversed.\<close>

definition number_sequences :: "string \<Rightarrow> finding list" where
  "number_sequences password =
     map (\<lambda>seq. \<lparr>type = ''number_sequence'',
                  description = ''Contains number sequence '' @ quoted seq,
                  penalty = 0.25\<rparr>)
       (filter (\<lambda>seq. py_in seq password \<or> py_in (rev seq) password)
          [''123'', ''234'', ''345'', ''456'', ''567'', ''678'', ''789'', ''890''])"

text \<open>Palindromes.\<close>

definition palindromes :: "string \<Rightarrow> string \<Rightarrow> finding list" where
  "palindromes password password_lower =
     (if length password \<ge> 5 \<and> password_lower = rev password_lower
      then [\<lparr>type = ''palindrome'',
             description = ''Password is a palindrome (e.g., '' @ quoted ''deked'' @ '')'',
             penalty = 0.2\<rparr>]
      else [])"

text \<open>Low vowel frequency. The conjunction is evaluated left to right, so the division
  is reached only for a password of eight characters or more.\<close>

definition low_vowels :: "string \<Rightarrow> string \<Rightarrow> finding list" where
  "low_vowels password password_lower =
     (let vowel_count = length (filter (\<lambda>c. c \<in> set ''aeiou'') password_lower) in
      if length password \<ge> 8 \<and> real vowel_count / real (length password) < 0.1
      then [\<lparr>type = ''low_vowels'',
             description = ''Low vowel frequency (possibly random)'',
             penalty = 0.3\<rparr>]
      else [])"

text \<open>Alternating patterns: the loop over \<open>range(2, len // 2 + 1)\<close> tests the same
  condition in every round and stops at the first round where it holds.\<close>

definition alternating_patterns :: "string \<Rightarrow> finding list" where
  "alternating_patterns password =
     (let n = length password in
      if list_ex (\<lambda>i. list_all (\<lambda>j. password ! j = password ! (j mod 2)) [0 ..< n])
           [2 ..< n div 2 + 1]
      then [\<lparr>type = ''alternating_pattern'',
             description = ''Alternating pattern detected'',
             penalty = 0.3\<rparr>]
      else [])"

text \<open>The last block, excessive symbols, divides by \<open>len(password)\<close> with no guard: on
  the empty password Python raises \<open>ZeroDivisionError\<close> there.\<close>

definition detect_patterns :: "string \<Rightarrow> py_error + finding list" where
  "detect_patterns password =
     (let password_lower = lower password;
          patterns = keyboard_sequences password_lower @ repeated_characters password @
                     repeated_tokens password @ year_patterns password @
                     number_sequences password @ palindromes password password_lower @
                     low_vowels password password_lower @ alternating_patterns password;
          symbol_count = length (filter (\<lambda>c. c \<in> set SYMBOLS) password)
      in if length password = 0 then Inl ZeroDivisionError
         else if real symbol_count / real (length password) > 0.5
         then Inr (patterns @ [\<lparr>type = ''excessive_symbols'',
                                 description = ''Too many symbols reduce readability'',
                                 penalty = 0.2\<rparr>])
         else Inr patterns)"

section \<open>Confusing characters and pronounceability\<close>

definition check_confusing_chars :: "string \<Rightarrow> bool \<times> real" where
  "check_confusing_chars password =
     (let confusing_count = length (filter (\<lambda>c. c \<in> CONFUSING_CHARS) password);
          consecutive_confusing =
            list_ex (\<lambda>i. password ! i \<in> CONFUSING_CHARS \<and> password ! (i + 1) \<in> CONFUSING_CHARS)
              [0 ..< length password - 1];
          penalty = (if consecutive_confusing then 0.3
                     else if confusing_count \<ge> 2 then 0.2 else 0.0)
      in (confusing_count \<ge> 2 \<or> consecutive_confusing, penalty))"

text \<open>The loop state is \<open>(syllable_count, prev_vowel)\<close>. The quotient
  \<open>syllable_count / (len(password) / 4)\<close> raises on the empty password.\<close>

definition syllables :: "string \<Rightarrow> nat" where
  "syllables password =
     fst (foldl (\<lambda>(syllable_count, prev_vowel) c.
                   let is_vowel = (c \<in> set ''aeiou'') in
                   (if is_vowel \<and> \<not> prev_vowel then syllable_count + 1 else syllable_count,
                    is_vowel))
            (0, False) (lower password))"

definition estimate_pronounceability :: "string \<Rightarrow> py_error + real" where
  "estimate_pronounceability password =
     (if real (length password) / 4 = 0 then Inl ZeroDivisionError
      else Inr (min 1.0 (real (syllables password) / (real (length password) / 4))))"

section \<open>History ledger\<close>

text \<open>
  An entry of \<open>password_history\<close> is the tuple \<open>(hash, score, timestamp)\<close>. The digest
  \<open>hashlib.sha256(password.encode()).hexdigest()\<close> is a parameter \<open>sha256\<close> of the model,
  and so is the reading \<open>now\<close> of the clock at the call. The stored score is the value of
  \<open>final_score\<close> that \<open>score_password\<close> passes, a float unless the oracle was blended in.
\<close>

type_synonym history_entry = "string \<times> real \<times> string"

type_synonym history = "history_entry list"

definition check_password_reuse :: "(string \<Rightarrow> string) \<Rightarrow> history \<Rightarrow> string \<Rightarrow> bool \<times> real" where
  "check_password_reuse sha256 password_history password =
     (let pwd_hash = sha256 password in
      if list_ex (\<lambda>(stored_hash, _, _). stored_hash = pwd_hash) password_history
      then (True, 0.5) else (False, 0.0))"

definition add_to_history ::
  "(string \<Rightarrow> string) \<Rightarrow> string \<Rightarrow> history \<Rightarrow> string \<Rightarrow> real \<Rightarrow> history" where
  "add_to_history sha256 now password_history password score =
     (let pwd_hash = sha256 password;
          appended = password_history @ [(pwd_hash, score, now)]
      in if length appended > 50 then tl appended else appended)"

section \<open>Scoring engine\<close>

text \<open>
  The breakdown is the dictionary \<open>analysis\<close>: a map from its keys to Python values. The
  optional oracle is \<open>None\<close> when \<open>ZXCVBN_AVAILABLE\<close> is false; when present, a call
  returns \<open>None\<close> where Python raises inside the \<open>try\<close> block, and otherwise the fields
  \<open>score\<close> and \<open>feedback\<close> of its result.
\<close>

datatype pyval = Num real | Text string | Findings "finding list" | Feedback string

type_synonym analysis = "string \<rightharpoonup> pyval"

record zxcvbn_result =
  zx_score :: int
  zx_feedback :: string

type_synonym zxcvbn_lib = "(string \<Rightarrow> zxcvbn_result option) option"

definition length_score :: "string \<Rightarrow> real" where
  "length_score password =
     (let length = length password in
      if length < 8 then max 0 (real length * 5)
      else min 50 (20 + 10 * ln (real (length - 5))))"

text \<open>The values of \<open>char_types\<close>, in the order of its keys.\<close>

definition char_types :: "string \<Rightarrow> bool list" where
  "char_types password =
     [list_ex islower password, list_ex isupper password, list_ex isdigit password,
      list_ex (\<lambda>c. c \<in> set SYMBOLS) password]"

definition variety_count :: "string \<Rightarrow> nat" where
  "variety_count password = length (filter (\<lambda>b. b) (char_types password))"

definition variety_score :: "string \<Rightarrow> real" where
  "variety_score password = min 25 (real (variety_count password) * 6.25)"

definition bonus_points :: "string \<Rightarrow> real" where
  "bonus_points password =
     (if variety_count password \<ge> 3 \<and> length password \<ge> 8 then 5 else 0)"

text \<open>\<open>Counter(password.lower())\<close>: the distinct characters with their counts.\<close>

definition uniqueness_score :: "string \<Rightarrow> real" where
  "uniqueness_score password =
     (let lowered = lower password;
          char_freq = map (\<lambda>c. count_list lowered c) (remdups lowered)
      in if length char_freq > 1
         then (let entropy_estimate =
                     - sum_list (map (\<lambda>freq. real freq / real (length password) *
                                              log 2 (real freq / real (length password)))
                                   char_freq)
               in min 15 (entropy_estimate * 3))
         else 0)"

definition hint_relevance_score :: "string \<Rightarrow> string \<Rightarrow> real" where
  "hint_relevance_score password hint =
     (if hint \<noteq> [] \<and> py_in (lower hint) (lower password) then 5 else 0)"

definition score_password ::
  "(string \<Rightarrow> string) \<Rightarrow> zxcvbn_lib \<Rightarrow> string \<Rightarrow> history \<Rightarrow> string \<Rightarrow> string
     \<Rightarrow> py_error + (int \<times> analysis \<times> history)" where
  "score_password sha256 zxcvbn now password_history password hint =
     (if password = [] then
        Inr (0, [''error'' \<mapsto> Text ''Empty password''], password_history)
      else
        case estimate_pronounceability password of
          Inl e \<Rightarrow> Inl e
        | Inr pronounceability \<Rightarrow>
        (case detect_patterns password of
          Inl e \<Rightarrow> Inl e
        | Inr patterns \<Rightarrow>
          let pronounceability_score = pronounceability * 10;
              total_penalty = sum_list (map (\<lambda>pattern. penalty pattern * 10) patterns);
              blacklist_penalty = snd (check_common_passwords password) * 30;
              confusing_penalty = snd (check_confusing_chars password) * 10;
              reuse_penalty = snd (check_password_reuse sha256 password_history password) * 10;
              analysis =
                [''length_score'' \<mapsto> Num (length_score password),
                 ''variety_score'' \<mapsto> Num (variety_score password),
                 ''uniqueness_score'' \<mapsto> Num (uniqueness_score password),
                 ''pronounceability_score'' \<mapsto> Num pronounceability_score,
                 ''pattern_penalties'' \<mapsto> Findings patterns,
                 ''blacklist_penalty'' \<mapsto> Num blacklist_penalty,
                 ''confusing_penalty'' \<mapsto> Num confusing_penalty,
                 ''reuse_penalty'' \<mapsto> Num reuse_penalty,
                 ''hint_relevance_score'' \<mapsto> Num (hint_relevance_score password hint),
                 ''bonus_points'' \<mapsto> Num (bonus_points password),
                 ''total_penalty'' \<mapsto> Num total_penalty];
              base_score = length_score password + variety_score password +
                           uniqueness_score password + pronounceability_score +
                           hint_relevance_score password hint + bonus_points password;
              final_score = max 0 (min 100 (base_score - total_penalty - blacklist_penalty -
                                            confusing_penalty - reuse_penalty));
              (final_score, analysis) =
                (case zxcvbn of
                   None \<Rightarrow> (final_score, analysis)
                 | Some zxcvbn_call \<Rightarrow>
                     (case zxcvbn_call password of
                        None \<Rightarrow> (final_score, analysis)
                      | Some zxcvbn_result \<Rightarrow>
                          let zxcvbn_score = (real_of_int (zx_score zxcvbn_result) / 4.0) * 100
                          in (real_of_int (py_int (final_score * 0.7 + zxcvbn_score * 0.3)),
                              analysis(''zxcvbn_feedback'' \<mapsto>
                                         Feedback (zx_feedback zxcvbn_result)))))
          in Inr (py_int final_score, analysis,
                  add_to_history sha256 now password_history password final_score)))"

definition is_valid_password ::
  "(string \<Rightarrow> string) \<Rightarrow> zxcvbn_lib \<Rightarrow> string \<Rightarrow> history \<Rightarrow> string
     \<Rightarrow> py_error + (bool \<times> history)" where
  "is_valid_password sha256 zxcvbn now password_history password =
     (if length password < 8 then Inr (False, password_history)
      else case score_password sha256 zxcvbn now password_history password [] of
             Inl e \<Rightarrow> Inl e
           | Inr (score, _, password_history') \<Rightarrow> Inr (score \<ge> 60, password_history'))"

text \<open>The two stages of \<open>final_score\<close> inside \<open>score_password\<close>, named so that facts
  about a call can be stated: the clamped local score, from the pronounceability and
  the findings of the call, and the value after the oracle block.\<close>

definition clamped_score ::
  "(string \<Rightarrow> string) \<Rightarrow> history \<Rightarrow> string \<Rightarrow> string \<Rightarrow> real \<Rightarrow> finding list \<Rightarrow> real" where
  "clamped_score sha256 password_history password hint pronounceability patterns =
     max 0 (min 100
       (length_score password + variety_score password + uniqueness_score password +
        pronounceability * 10 + hint_relevance_score password hint + bonus_points password -
        sum_list (map (\<lambda>pattern. penalty pattern * 10) patterns) -
        snd (check_common_passwords password) * 30 -
        snd (check_confusing_chars password) * 10 -
        snd (check_password_reuse sha256 password_history password) * 10))"

definition blended_score :: "zxcvbn_lib \<Rightarrow> string \<Rightarrow> real \<Rightarrow> real" where
  "blended_score zxcvbn password final_score =
     (case zxcvbn of
        None \<Rightarrow> final_score
      | Some zxcvbn_call \<Rightarrow>
          (case zxcvbn_call password of
             None \<Rightarrow> final_score
           | Some zxcvbn_result \<Rightarrow>
               real_of_int (py_int (final_score * 0.7 +
                 (real_of_int (zx_score zxcvbn_result) / 4.0) * 100 * 0.3))))"

text \<open>The oracle's \<open>score\<close> is documented to lie in \<open>0..4\<close>, so that
  \<open>score / 4.0 * 100\<close> is normalised to \<open>0..100\<close>.\<close>

definition zxcvbn_normalized :: "zxcvbn_lib \<Rightarrow> string \<Rightarrow> bool" where
  "zxcvbn_normalized zxcvbn password =
     (case zxcvbn of
        None \<Rightarrow> True
      | Some zxcvbn_call \<Rightarrow>
          (case zxcvbn_call password of
             None \<Rightarrow> True
           | Some zxcvbn_result \<Rightarrow> 0 \<le> zx_score zxcvbn_result \<and> zx_score zxcvbn_result \<le> 4))"

text \<open>The \<open>type\<close> entries of the findings of a call, in order.\<close>

definition finding_types :: "py_error + finding list \<Rightarrow> string list" where
  "finding_types result = (case result of Inl e \<Rightarrow> [] | Inr patterns \<Rightarrow> map type patterns)"

text \<open>A run of \<open>score_password\<close> calls on one engine, each with its candidate, its hint
  and the clock reading of the call; the ledger is threaded through.\<close>

fun scoring_calls ::
  "(string \<Rightarrow> string) \<Rightarrow> zxcvbn_lib \<Rightarrow> history \<Rightarrow> (string \<times> string \<times> string) list
     \<Rightarrow> py_error + history" where
  "scoring_calls sha256 zxcvbn password_history [] = Inr password_history"
| "scoring_calls sha256 zxcvbn password_history ((password, hint, now) # calls) =
     (case score_password sha256 zxcvbn now password_history password hint of
        Inl e \<Rightarrow> Inl e
      | Inr (_, _, password_history') \<Rightarrow> scoring_calls sha256 zxcvbn password_history' calls)"

text \<open>The digests held by the ledger after such a run, from the digests held before:
  a call on the empty candidate records nothing, any other call appends the digest of its
  candidate and drops the first digest when that makes more than 50.\<close>

definition digests_after ::
  "(string \<Rightarrow> string) \<Rightarrow> string list \<Rightarrow> (string \<times> string \<times> string) list \<Rightarrow> string list" where
  "digests_after sha256 ds calls =
     foldl (\<lambda>ds (password, hint, now).
              if password = [] then ds
              else if length ds < 50 then ds @ [sha256 password]
              else tl (ds @ [sha256 password]))
       ds calls"

text \<open>A validity check of a candidate, then a run of scoring calls, then a scoring call
  on the same candidate: the \<open>reuse_penalty\<close> entry of the last breakdown.\<close>

definition reuse_after_validity_check ::
  "(string \<Rightarrow> string) \<Rightarrow> zxcvbn_lib \<Rightarrow> history \<Rightarrow> string \<Rightarrow> string
     \<Rightarrow> (string \<times> string \<times> string) list \<Rightarrow> string \<Rightarrow> string \<Rightarrow> py_error + pyval option" where
  "reuse_after_validity_check sha256 zxcvbn password_history password now calls hint now' =
     (case is_valid_password sha256 zxcvbn now password_history password of
        Inl e \<Rightarrow> Inl e
      | Inr (_, h1) \<Rightarrow>
          (case scoring_calls sha256 zxcvbn h1 calls of
             Inl e \<Rightarrow> Inl e
           | Inr h2 \<Rightarrow>
               (case score_password sha256 zxcvbn now' h2 password hint of
                  Inl e \<Rightarrow> Inl e
                | Inr (_, analysis, _) \<Rightarrow> Inr (analysis ''reuse_penalty''))))"

section \<open>Memorable password generator\<close>

text \<open>
  The outcomes of the four random calls, in the order of the calls: the index that
  \<open>random.choice\<close> picks among the security words, the result of
  \<open>random.randint(2020, 2025)\<close>, the index picked among the symbols of the
  configuration, and the index picked among the padding words. Each index is below the
  length of its list, and the year is one of 2020..2025.
\<close>

record draws =
  security_word :: nat
  year :: nat
  symbol :: nat
  padding :: nat

text \<open>\<open>str.title\<close>: a cased character is upper-cased at the start of a run of cased
  characters and lower-cased inside it.\<close>

fun title_from :: "bool \<Rightarrow> string \<Rightarrow> string" where
  "title_from previous_is_cased [] = []"
| "title_from previous_is_cased (c # s) =
     (if previous_is_cased then lower_char c else upper_char c) #
     title_from (islower c \<or> isupper c) s"

definition title :: "string \<Rightarrow> string" where
  "title s = title_from False s"

record config =
  symbols :: "string list"
  numbers :: bool
  transformations :: bool

definition complexity_configs :: "(string \<times> config) list" where
  "complexity_configs =
     [(''simple'', \<lparr>symbols = [''!'', ''#''], numbers = True, transformations = False\<rparr>),
      (''balanced'', \<lparr>symbols = [''!'', ''@'', ''#'', ''$''], numbers = True,
                      transformations = True\<rparr>),
      (''complex'', \<lparr>symbols = [''!'', ''@'', ''#'', ''$'', ''%''], numbers = True,
                     transformations = True\<rparr>)]"

definition generate_memorable_password :: "draws \<Rightarrow> string \<Rightarrow> nat \<Rightarrow> string \<Rightarrow> string" where
  "generate_memorable_password rnd hint0 requested complexity =
     (let hint = (if hint0 = [] then ''Secure'' else hint0);
          hint_clean = title (filter (\<lambda>c. islower c \<or> isupper c \<or> isdigit c) hint);
          hint_clean = (if length hint_clean < 3 then ''Secure'' @ hint_clean else hint_clean);
          config = (case map_of complexity_configs complexity of
                      Some cfg \<Rightarrow> cfg
                    | None \<Rightarrow> the (map_of complexity_configs ''balanced''));
          first =
            (if transformations config then
               (let transformed_hint = hint_clean;
                    transformed_hint =
                      (if CHR ''a'' \<in> set (lower transformed_hint)
                       then replace_char (CHR ''A'') (CHR ''@'')
                              (replace_char (CHR ''a'') (CHR ''@'') transformed_hint)
                       else transformed_hint);
                    transformed_hint =
                      (if CHR ''e'' \<in> set (lower transformed_hint)
                       then replace_char (CHR ''E'') (CHR ''3'')
                              (replace_char (CHR ''e'') (CHR ''3'') transformed_hint)
                       else transformed_hint)
                in transformed_hint)
             else hint_clean);
          components =
            [first, [''Secure'', ''Strong'', ''Safe''] ! security_word rnd] @
            (if numbers config then [str_nat (year rnd)] else []) @
            [symbols config ! symbol rnd];
          password = concat components
      in if length password < requested
         then password @ [''Pro'', ''Max'', ''Plus''] ! padding rnd
         else if length password > requested then take requested password
         else password)"

section \<open>Basic facts about the operations\<close>

declare str_nat.simps [simp del]

lemma py_in_last: "py_in sub s \<Longrightarrow> sub \<noteq> [] \<Longrightarrow> last sub \<in> set s"
proof (induction s)
  case Nil
  then show ?case by simp
next
  case (Cons c s)
  show ?case
  proof (cases "startswith (c # s) sub")
    case True
    then have "sub = take (length sub) (c # s)" by (simp add: startswith_def)
    then have "set sub \<subseteq> set (c # s)" by (metis set_take_subset)
    with Cons.prems(2) show ?thesis using last_in_set by blast
  next
    case False
    with Cons show ?thesis by simp
  qed
qed

lemma str_nat_last: "str_nat n \<noteq> [] \<and> last (str_nat n) \<in> set digits"
proof -
  have d: "digits ! (n mod 10) \<in> set digits"
    by (rule nth_mem) (simp add: digits_def)
  show ?thesis
  proof (cases "n < 10")
    case True
    with d show ?thesis by (simp add: str_nat.simps [of n])
  next
    case False
    with d show ?thesis by (simp add: str_nat.simps [of n])
  qed
qed

text \<open>A password without a digit contains no year.\<close>

lemma year_patterns_no_digit:
  assumes "set password \<inter> set digits = {}"
  shows "year_patterns password = []"
proof -
  have "\<not> py_in (str_nat y) password" for y
    using py_in_last [of "str_nat y" password] str_nat_last [of y] assms by blast
  then show ?thesis by (simp add: year_patterns_def)
qed

text \<open>On a non-empty password neither division raises.\<close>

lemma detect_patterns_total:
  "password \<noteq> [] \<Longrightarrow> \<exists>patterns. detect_patterns password = Inr patterns"
  by (simp add: detect_patterns_def Let_def)

lemma estimate_pronounceability_total:
  "password \<noteq> [] \<Longrightarrow>
     \<exists>p. estimate_pronounceability password = Inr p \<and> 0 \<le> p \<and> p \<le> 1"
  by (simp add: estimate_pronounceability_def)

text \<open>What a scoring call on a non-empty password returns: the integer score is the
  truncation of the last value of \<open>final_score\<close>, and the ledger is the old one with the
  entry for that value recorded.\<close>

lemma score_password_nonempty:
  assumes "password \<noteq> []"
  shows "\<exists>pron patterns a.
           estimate_pronounceability password = Inr pron \<and>
           detect_patterns password = Inr patterns \<and>
           score_password sha256 zxcvbn now h password hint =
             Inr (py_int (blended_score zxcvbn password
                            (clamped_score sha256 h password hint pron patterns)),
                  a,
                  add_to_history sha256 now h password
                    (blended_score zxcvbn password
                       (clamped_score sha256 h password hint pron patterns))) \<and>
           a ''variety_score'' = Some (Num (variety_score password)) \<and>
           a ''reuse_penalty'' = Some (Num (snd (check_password_reuse sha256 h password) * 10))"
proof -
  obtain pron where p: "estimate_pronounceability password = Inr pron"
    using estimate_pronounceability_total [OF assms] by blast
  obtain patterns where d: "detect_patterns password = Inr patterns"
    using detect_patterns_total [OF assms] by blast
  show ?thesis
    using assms p d
    by (simp add: score_password_def clamped_score_def blended_score_def Let_def
          split: option.splits)
qed

text \<open>Every scoring call returns; only a call on a non-empty password changes the
  ledger, by one recording.\<close>

lemma score_password_result:
  "\<exists>score a fs. score_password sha256 zxcvbn now h password hint =
       Inr (score, a, if password = [] then h else add_to_history sha256 now h password fs)"
proof (cases "password = []")
  case True
  then show ?thesis by (simp add: score_password_def)
next
  case False
  from score_password_nonempty [OF False, of sha256 zxcvbn now h hint] False
  show ?thesis by auto
qed

lemma py_int_range: "0 \<le> x \<Longrightarrow> x \<le> 100 \<Longrightarrow> 0 \<le> py_int x \<and> py_int x \<le> 100"
  by (simp add: py_int_def floor_le_iff le_floor_iff)

lemma py_int_of_int: "py_int (real_of_int k) = k"
  by (simp add: py_int_def)

lemma clamped_score_range:
  "0 \<le> clamped_score sha256 h password hint pron patterns \<and>
   clamped_score sha256 h password hint pron patterns \<le> 100"
  by (simp add: clamped_score_def)

lemma blend_range:
  assumes "0 \<le> loc" "loc \<le> 100" "0 \<le> k" "k \<le> 4"
  shows "0 \<le> loc * 0.7 + (real_of_int k / 4) * 100 * 0.3 \<and>
         loc * 0.7 + (real_of_int k / 4) * 100 * 0.3 \<le> 100"
proof -
  have "0 \<le> real_of_int k" "real_of_int k \<le> 4" using assms by simp_all
  with assms(1,2) show ?thesis by simp
qed

text \<open>With a normalised oracle the blended value stays between 0 and 100.\<close>

lemma blended_score_range:
  assumes "zxcvbn_normalized zxcvbn password" "0 \<le> loc" "loc \<le> 100"
  shows "0 \<le> blended_score zxcvbn password loc \<and> blended_score zxcvbn password loc \<le> 100"
proof (cases zxcvbn)
  case None
  with assms show ?thesis by (simp add: blended_score_def)
next
  case (Some zxcvbn_call)
  note call = this
  show ?thesis
  proof (cases "zxcvbn_call password")
    case None
    with call assms show ?thesis by (simp add: blended_score_def)
  next
    case (Some r)
    with call assms(1) have r: "0 \<le> zx_score r" "zx_score r \<le> 4"
      by (simp_all add: zxcvbn_normalized_def)
    have eq: "blended_score zxcvbn password loc =
                real_of_int (py_int (loc * 0.7 + (real_of_int (zx_score r) / 4) * 100 * 0.3))"
      using call Some by (simp add: blended_score_def)
    have "0 \<le> py_int (loc * 0.7 + (real_of_int (zx_score r) / 4) * 100 * 0.3) \<and>
          py_int (loc * 0.7 + (real_of_int (zx_score r) / 4) * 100 * 0.3) \<le> 100"
      using blend_range [OF assms(2,3) r] by (simp only: py_int_range)
    then show ?thesis by (simp only: eq) simp
  qed
qed

section \<open>C1: the pattern detector on the empty password\<close>

text \<open>
  C1. The claim is that every matching and scoring operation returns on every string,
  the empty one included. In the code the excessive-symbols block of \<open>detect_patterns\<close>
  divides by \<open>len(password)\<close> without a guard, and \<open>estimate_pronounceability\<close> divides
  by \<open>len(password) / 4\<close>: on the empty password both raise \<open>ZeroDivisionError\<close>.
\<close>

theorem detect_patterns_empty_raises:
  "detect_patterns [] = Inl ZeroDivisionError \<and>
   estimate_pronounceability [] = Inl ZeroDivisionError"
  by (simp add: detect_patterns_def estimate_pronounceability_def)

section \<open>C4: the breakdown of the empty password\<close>

text \<open>
  C4. The claim is that scoring the empty password returns the score 0 and a breakdown
  with an error marker and all component scores present and zero. The code returns the
  score 0 and a dictionary whose only key is \<open>error\<close>: none of the component keys is
  present, and the ledger is left as it was.
\<close>

theorem score_password_empty_breakdown:
  "score_password sha256 zxcvbn now h [] hint =
     Inr (0, [''error'' \<mapsto> Text ''Empty password''], h) \<and>
   [''error'' \<mapsto> Text ''Empty password''] ''length_score'' = None \<and>
   [''error'' \<mapsto> Text ''Empty password''] ''variety_score'' = None \<and>
   [''error'' \<mapsto> Text ''Empty password''] ''uniqueness_score'' = None \<and>
   [''error'' \<mapsto> Text ''Empty password''] ''pronounceability_score'' = None \<and>
   [''error'' \<mapsto> Text ''Empty password''] ''bonus_points'' = None \<and>
   [''error'' \<mapsto> Text ''Empty password''] ''total_penalty'' = None \<and>
   [''error'' \<mapsto> Text ''Empty password''] ''blacklist_penalty'' = None \<and>
   [''error'' \<mapsto> Text ''Empty password''] ''confusing_penalty'' = None \<and>
   [''error'' \<mapsto> Text ''Empty password''] ''reuse_penalty'' = None"
  by (simp add: score_password_def)

section \<open>C5: the length of a generated password\<close>

lemma generate_sunset_safe:
  "generate_memorable_password
     \<lparr>security_word = 2, year = 2020, symbol = 0, padding = 0\<rparr> ''sunset'' 16 ''balanced'' =
   ''Suns3tSafe2020!Pro''"
  by code_simp

text \<open>
  C5. The claim is that \<open>generate_memorable_password("sunset", 16, "balanced")\<close> has
  length exactly 16 for every outcome of the random choices. When the security word
  drawn is \<open>Safe\<close> the joined components have 15 characters, the padding branch appends a
  word of three or four characters and nothing is cut afterwards: with the draws
  \<open>Safe\<close>, 2020, \<open>!\<close> and \<open>Pro\<close> the result has 18 characters.
\<close>

theorem generate_memorable_password_length_18:
  "generate_memorable_password
     \<lparr>security_word = 2, year = 2020, symbol = 0, padding = 0\<rparr> ''sunset'' 16 ''balanced'' =
   ''Suns3tSafe2020!Pro'' \<and>
   length (generate_memorable_password
     \<lparr>security_word = 2, year = 2020, symbol = 0, padding = 0\<rparr> ''sunset'' 16 ''balanced'') = 18"
  by (simp add: generate_sunset_safe)

section \<open>C7: the similarity matcher on two variants of a common password\<close>

lemma passw0rd_similar: "is_similar_password (lower ''Passw0rd!'') (lower ''password'')"
  by code_simp

lemma p_at_ssword_similar: "is_similar_password (lower ''P@ssword'') (lower ''password'')"
  by code_simp

lemma passw0rd_common: "check_common_passwords ''Passw0rd!'' = (True, 0.7)"
  by code_simp

lemma p_at_ssword_common: "check_common_passwords ''P@ssword'' = (True, 0.7)"
  by code_simp

text \<open>
  C7. \<open>check_common_passwords\<close> flags both \<open>Passw0rd!\<close> and \<open>P@ssword\<close>: neither is in the
  corpus as it stands, each is similar to the corpus entry \<open>password\<close>, and the result
  is \<open>(True, 0.7)\<close> for both.
\<close>

theorem check_common_passwords_variants:
  "check_common_passwords ''Passw0rd!'' = (True, 0.7) \<and>
   check_common_passwords ''P@ssword'' = (True, 0.7) \<and>
   is_similar_password (lower ''Passw0rd!'') (lower ''password'') \<and>
   is_similar_password (lower ''P@ssword'') (lower ''password'')"
  by (simp only: passw0rd_similar p_at_ssword_similar passw0rd_common p_at_ssword_common
        simp_thms)

section \<open>C2: the range of the final score\<close>

text \<open>
  C2. For every candidate and every hint a scoring call returns, and the integer score it
  returns lies between 0 and 100: on the local path, and on the path where the oracle
  answers with a score between 0 and 4, which the code normalises to 0..100 and blends in
  at 70/30.
\<close>

theorem score_password_range:
  assumes "zxcvbn_normalized zxcvbn password"
  shows "\<exists>score analysis h'.
           score_password sha256 zxcvbn now h password hint = Inr (score, analysis, h') \<and>
           0 \<le> score \<and> score \<le> 100"
proof (cases "password = []")
  case True
  then show ?thesis by (simp add: score_password_def)
next
  case False
  from score_password_nonempty [OF False, of sha256 zxcvbn now h hint]
  obtain pron patterns a where
    sp: "score_password sha256 zxcvbn now h password hint =
           Inr (py_int (blended_score zxcvbn password
                          (clamped_score sha256 h password hint pron patterns)),
                a,
                add_to_history sha256 now h password
                  (blended_score zxcvbn password
                     (clamped_score sha256 h password hint pron patterns)))"
    by blast
  have "0 \<le> blended_score zxcvbn password (clamped_score sha256 h password hint pron patterns) \<and>
        blended_score zxcvbn password (clamped_score sha256 h password hint pron patterns) \<le> 100"
    using blended_score_range [OF assms] clamped_score_range by blast
  then have "0 \<le> py_int (blended_score zxcvbn password
                            (clamped_score sha256 h password hint pron patterns)) \<and>
             py_int (blended_score zxcvbn password
                       (clamped_score sha256 h password hint pron patterns)) \<le> 100"
    by (simp only: py_int_range)
  with sp show ?thesis by blast
qed

theorem score_password_range_witness:
  "\<exists>score analysis h'.
     score_password id (Some (\<lambda>p. Some \<lparr>zx_score = 4, zx_feedback = []\<rparr>))
       ''2025-01-01 00:00:00'' [] ''Tr@mpoline$92!'' [] = Inr (score, analysis, h') \<and>
     0 \<le> score \<and> score \<le> 100"
  using score_password_range
    [of "Some (\<lambda>p. Some \<lparr>zx_score = 4, zx_feedback = []\<rparr>)" "''Tr@mpoline$92!''" id
        "''2025-01-01 00:00:00''" "[]" "[]"]
  by (simp add: zxcvbn_normalized_def)


section \<open>C8: the ledger is a bounded first-in first-out sequence\<close>

lemma add_to_history_eq:
  "add_to_history sha256 now h password score =
     (if length h < 50 then h @ [(sha256 password, score, now)]
      else tl (h @ [(sha256 password, score, now)]))"
  by (simp add: add_to_history_def Let_def)

lemma add_to_history_drop:
  assumes "length h \<le> 50"
  shows "add_to_history sha256 now h password score =
           drop (length (h @ [(sha256 password, score, now)]) - 50)
             (h @ [(sha256 password, score, now)])"
proof (cases "length h < 50")
  case True
  then show ?thesis by (simp add: add_to_history_eq)
next
  case False
  with assms have l: "length h = 50" by simp
  then obtain x xs where h: "h = x # xs" by (cases h) auto
  with l have "length xs = 49" by simp
  with h show ?thesis by (simp add: add_to_history_eq)
qed

lemma record_all_drop:
  "foldl (\<lambda>h (password, score, now). add_to_history sha256 now h password score) [] records =
     drop (length records - 50)
       (map (\<lambda>(password, score, now). (sha256 password, score, now)) records)"
proof (induction records rule: rev_induct)
  case Nil
  then show ?case by simp
next
  case (snoc r records)
  obtain password score now where r: "r = (password, score, now)" by (cases r)
  let ?es = "map (\<lambda>(password, score, now). (sha256 password, score, now)) records"
  have len: "length (drop (length records - 50) ?es) \<le> 50" by simp
  have "drop (length (drop (length records - 50) ?es @ [(sha256 password, score, now)]) - 50)
          (drop (length records - 50) ?es @ [(sha256 password, score, now)]) =
        drop (Suc (length records) - 50) (?es @ [(sha256 password, score, now)])"
  proof (cases "length records < 50")
    case True
    then show ?thesis by simp
  next
    case False
    then have "Suc (length records) - 50 = Suc (length records - 50)" by simp
    with False show ?thesis by (simp add: drop_Suc tl_drop)
  qed
  with snoc r add_to_history_drop [OF len, of sha256 now password score]
  show ?case by simp
qed

text \<open>
  C8. Recording appends the new entry whatever the ledger holds, also for a candidate
  that is already there. A ledger of at most 50 entries stays at most 50 entries long;
  at 50 entries the first one, the oldest, is dropped and all others are kept in order.
  Starting from the empty ledger, after any sequence of recordings the ledger is the last
  50 entries recorded, in the order of recording.
\<close>

theorem add_to_history_fifo:
  "(length h \<le> 50 \<longrightarrow> length (add_to_history sha256 now h password score) \<le> 50) \<and>
   (length h < 50 \<longrightarrow>
      add_to_history sha256 now h password score = h @ [(sha256 password, score, now)]) \<and>
   (length h = 50 \<longrightarrow>
      add_to_history sha256 now h password score = tl h @ [(sha256 password, score, now)]) \<and>
   foldl (\<lambda>h (password, score, now). add_to_history sha256 now h password score) [] records =
     drop (length records - 50)
       (map (\<lambda>(password, score, now). (sha256 password, score, now)) records)"
proof (intro conjI impI)
  assume "length h \<le> 50"
  then show "length (add_to_history sha256 now h password score) \<le> 50"
    by (simp add: add_to_history_eq)
next
  assume "length h < 50"
  then show "add_to_history sha256 now h password score = h @ [(sha256 password, score, now)]"
    by (simp add: add_to_history_eq)
next
  assume l: "length h = 50"
  then obtain x xs where "h = x # xs" by (cases h) auto
  with l show "add_to_history sha256 now h password score =
                 tl h @ [(sha256 password, score, now)]"
    by (simp add: add_to_history_eq)
next
  show "foldl (\<lambda>h (password, score, now). add_to_history sha256 now h password score) []
          records =
        drop (length records - 50)
          (map (\<lambda>(password, score, now). (sha256 password, score, now)) records)"
    by (rule record_all_drop)
qed

theorem add_to_history_fifo_witness:
  "length (add_to_history id ''t3'' [(''a'', 10, ''t1''), (''b'', 20, ''t2'')] ''a'' 30) \<le> 50 \<and>
   add_to_history id ''t3'' [(''a'', 10, ''t1''), (''b'', 20, ''t2'')] ''a'' 30 =
     [(''a'', 10, ''t1''), (''b'', 20, ''t2''), (''a'', 30, ''t3'')] \<and>
   add_to_history id ''t1'' (replicate 50 (''old'', 0, ''t0'')) ''new'' 1 =
     replicate 49 (''old'', 0, ''t0'') @ [(''new'', 1, ''t1'')]"
  using add_to_history_fifo
    [of "[(''a'', 10, ''t1''), (''b'', 20, ''t2'')]" id "''t3''" "''a''" 30 "[]"]
    add_to_history_fifo [of "replicate 50 (''old'', 0, ''t0'')" id "''t1''" "''new''" 1 "[]"]
  by simp

section \<open>C3: which scoring calls record an entry\<close>

text \<open>
  C3 as stated says that every scoring call appends an entry, the call on the empty
  candidate included. The code returns from the empty candidate before it reaches
  \<open>add_to_history\<close>: scoring the empty candidate on the empty ledger leaves it empty.
\<close>

theorem score_password_empty_no_record:
  "length (snd (snd (projr (score_password id None ''2025-01-01 00:00:00'' [] [] [])))) \<noteq>
   length ([] :: history) + 1"
  by (simp add: score_password_def)

text \<open>
  C3, amended. A scoring call on a non-empty candidate records exactly one entry,
  carrying the digest of the candidate and the clock reading of the call, whatever the
  score is: the ledger grows by that entry at its end, and loses its first entry when it
  already held 50. A scoring call on the empty candidate returns the error breakdown and
  leaves the ledger as it was. The value in the score field of the entry is not part of
  the statement.
\<close>

theorem score_password_records:
  "(password = [] \<longrightarrow>
      score_password sha256 zxcvbn now h password hint =
        Inr (0, [''error'' \<mapsto> Text ''Empty password''], h)) \<and>
   (password \<noteq> [] \<longrightarrow>
      (\<exists>score a stored h'.
         score_password sha256 zxcvbn now h password hint = Inr (score, a, h') \<and>
         h' = (if length h < 50 then h @ [(sha256 password, stored, now)]
               else tl (h @ [(sha256 password, stored, now)])) \<and>
         length h' = (if length h < 50 then length h + 1 else length h)))"
proof (intro conjI impI)
  assume "password = []"
  then show "score_password sha256 zxcvbn now h password hint =
               Inr (0, [''error'' \<mapsto> Text ''Empty password''], h)"
    by (simp add: score_password_def)
next
  assume ne: "password \<noteq> []"
  from score_password_result [of sha256 zxcvbn now h password hint] ne
  obtain score a stored where
    sp: "score_password sha256 zxcvbn now h password hint =
           Inr (score, a, add_to_history sha256 now h password stored)"
    by auto
  let ?h' = "add_to_history sha256 now h password stored"
  have eq: "?h' = (if length h < 50 then h @ [(sha256 password, stored, now)]
                   else tl (h @ [(sha256 password, stored, now)]))"
    by (rule add_to_history_eq)
  have len: "length ?h' = (if length h < 50 then length h + 1 else length h)"
    by (simp add: add_to_history_eq)
  from sp eq len
  show "\<exists>score a stored h'.
         score_password sha256 zxcvbn now h password hint = Inr (score, a, h') \<and>
         h' = (if length h < 50 then h @ [(sha256 password, stored, now)]
               else tl (h @ [(sha256 password, stored, now)])) \<and>
         length h' = (if length h < 50 then length h + 1 else length h)"
    by blast
qed

theorem score_password_records_witness:
  "score_password id None ''t1'' [(''a'', 10, ''t0'')] [] [] =
     Inr (0, [''error'' \<mapsto> Text ''Empty password''], [(''a'', 10, ''t0'')]) \<and>
   (\<exists>score a stored.
      score_password id None ''t1'' [(''a'', 10, ''t0'')] ''a'' [] =
        Inr (score, a, [(''a'', 10, ''t0''), (''a'', stored, ''t1'')]))"
  using score_password_records [of "[]" id None "''t1''" "[(''a'', 10, ''t0'')]" "[]"]
    score_password_records [of "''a''" id None "''t1''" "[(''a'', 10, ''t0'')]" "[]"]
  by simp

text \<open>
  The score field. \<open>score_password\<close> passes \<open>final_score\<close> to \<open>add_to_history\<close> before
  \<open>int()\<close> is applied for the return value, so without the oracle the entry holds the
  unrounded value although \<open>add_to_history\<close> annotates \<open>score: int\<close>: scoring \<open>a\<close> on a
  fresh engine returns 21 and records 21.25.
\<close>

lemma a1_pron: "estimate_pronounceability ''a'' = Inr 1" by code_simp
lemma a1_common: "check_common_passwords ''a'' = (False, 0)" by code_simp
lemma a1_confusing: "check_confusing_chars ''a'' = (False, 0)" by code_simp
lemma a1_keyboard: "keyboard_sequences (lower ''a'') = []" by code_simp
lemma a1_repeated: "repeated_characters ''a'' = []" by code_simp
lemma a1_tokens: "repeated_tokens ''a'' = []" by code_simp
lemma a1_numbers: "number_sequences ''a'' = []" by code_simp
lemma a1_palindromes: "palindromes ''a'' (lower ''a'') = []" by code_simp
lemma a1_low_vowels: "low_vowels ''a'' (lower ''a'') = []" by code_simp
lemma a1_alternating: "alternating_patterns ''a'' = []" by code_simp
lemma a1_symbols: "length (filter (\<lambda>c. c \<in> set SYMBOLS) ''a'') = 0" by code_simp
lemma a1_years: "year_patterns ''a'' = []"
  by (rule year_patterns_no_digit) (simp add: digits_def)
lemma a1_detect: "detect_patterns ''a'' = Inr []"
  unfolding detect_patterns_def Let_def
  by (simp only: a1_keyboard a1_repeated a1_tokens a1_numbers a1_palindromes a1_low_vowels
        a1_alternating a1_years a1_symbols) simp
lemma a1_variety: "variety_count ''a'' = 1" by code_simp
lemma a1_remdups: "remdups (lower ''a'') = ''a''" by code_simp

lemma a1_clamped: "clamped_score id [] ''a'' [] 1 [] = 21.25"
proof -
  have "length_score ''a'' = 5" by (simp add: length_score_def Let_def)
  moreover have "variety_score ''a'' = 6.25" by (simp add: variety_score_def a1_variety)
  moreover have "uniqueness_score ''a'' = 0"
    by (simp add: uniqueness_score_def Let_def a1_remdups)
  moreover have "hint_relevance_score ''a'' [] = 0" by (simp add: hint_relevance_score_def)
  moreover have "bonus_points ''a'' = 0" by (simp add: bonus_points_def)
  moreover have "snd (check_password_reuse id [] ''a'') = 0"
    by (simp add: check_password_reuse_def)
  ultimately show ?thesis
    by (simp add: clamped_score_def a1_common a1_confusing)
qed

lemma stored_score_not_truncated:
  "\<exists>a. score_password id None ''t0'' [] ''a'' [] = Inr (21, a, [(''a'', 21.25, ''t0'')])"
proof -
  have ne: "''a'' \<noteq> []" by simp
  from score_password_nonempty [OF ne, of id None "''t0''" "[]" "[]"]
  obtain pron patterns a where
    p: "estimate_pronounceability ''a'' = Inr pron" and
    d: "detect_patterns ''a'' = Inr patterns" and
    sp: "score_password id None ''t0'' [] ''a'' [] =
           Inr (py_int (blended_score None ''a'' (clamped_score id [] ''a'' [] pron patterns)),
                a,
                add_to_history id ''t0'' [] ''a''
                  (blended_score None ''a'' (clamped_score id [] ''a'' [] pron patterns)))"
    by blast
  from p have pron: "pron = 1" by (simp add: a1_pron)
  from d have patterns: "patterns = []" by (simp add: a1_detect)
  have b: "blended_score None ''a'' (clamped_score id [] ''a'' [] pron patterns) = 21.25"
    unfolding pron patterns by (simp add: blended_score_def a1_clamped)
  have "py_int 21.25 = 21" by (simp add: py_int_def)
  with sp b show ?thesis by (simp add: add_to_history_eq)
qed

section \<open>C9: appending a missing character class\<close>

lemma variety_count_mono: "variety_count password \<le> variety_count (password @ [c])"
  by (simp add: variety_count_def char_types_def)

lemma variety_score_mono: "variety_score password \<le> variety_score (password @ [c])"
proof -
  have "real (variety_count password) * 6.25 \<le> real (variety_count (password @ [c])) * 6.25"
    using variety_count_mono [of password c] by simp
  then show ?thesis by (simp add: variety_score_def min_le_iff_disj)
qed

text \<open>
  C9. When fewer than four character classes are present and the appended character
  belongs to a class that the candidate does not have yet, the variety score of the
  longer candidate is not smaller, and the number of classes present grows. The variety
  score is the entry \<open>variety_score\<close> of the breakdown of a scoring call, for the longer
  candidate and, when it is not empty, for the original one (the empty candidate has the
  error breakdown, with no variety entry).
\<close>

theorem variety_score_monotone:
  assumes "variety_count password < 4"
    and "(islower c \<and> \<not> list_ex islower password) \<or>
         (isupper c \<and> \<not> list_ex isupper password) \<or>
         (isdigit c \<and> \<not> list_ex isdigit password) \<or>
         (c \<in> set SYMBOLS \<and> \<not> list_ex (\<lambda>c. c \<in> set SYMBOLS) password)"
  shows "variety_score password \<le> variety_score (password @ [c]) \<and>
         variety_count password < variety_count (password @ [c]) \<and>
         (\<exists>score a h'. score_password sha256 zxcvbn now h (password @ [c]) hint =
                          Inr (score, a, h') \<and>
                        a ''variety_score'' = Some (Num (variety_score (password @ [c])))) \<and>
         (password \<noteq> [] \<longrightarrow>
            (\<exists>score a h'. score_password sha256 zxcvbn now h password hint =
                             Inr (score, a, h') \<and>
                           a ''variety_score'' = Some (Num (variety_score password))))"
proof (intro conjI impI)
  show "variety_score password \<le> variety_score (password @ [c])"
    by (rule variety_score_mono)
next
  show "variety_count password < variety_count (password @ [c])"
    using assms(2) by (auto simp add: variety_count_def char_types_def)
next
  have "password @ [c] \<noteq> []" by simp
  from score_password_nonempty [OF this, of sha256 zxcvbn now h hint]
  show "\<exists>score a h'. score_password sha256 zxcvbn now h (password @ [c]) hint =
                          Inr (score, a, h') \<and>
                        a ''variety_score'' = Some (Num (variety_score (password @ [c])))"
    by blast
next
  assume "password \<noteq> []"
  from score_password_nonempty [OF this, of sha256 zxcvbn now h hint]
  show "\<exists>score a h'. score_password sha256 zxcvbn now h password hint =
                             Inr (score, a, h') \<and>
                           a ''variety_score'' = Some (Num (variety_score password))"
    by blast
qed

lemma abc_count: "variety_count ''abc'' = 1" by code_simp
lemma abc_digit: "isdigit (CHR ''1'') \<and> \<not> list_ex isdigit ''abc''" by code_simp

theorem variety_score_monotone_witness:
  "variety_count ''abc'' < 4 \<and> isdigit (CHR ''1'') \<and> \<not> list_ex isdigit ''abc'' \<and>
   variety_score ''abc'' \<le> variety_score ''abc1'' \<and>
   variety_count ''abc'' < variety_count ''abc1''"
proof -
  have h1: "variety_count ''abc'' < 4" by (simp add: abc_count)
  have h2: "(islower (CHR ''1'') \<and> \<not> list_ex islower ''abc'') \<or>
         (isupper (CHR ''1'') \<and> \<not> list_ex isupper ''abc'') \<or>
         (isdigit (CHR ''1'') \<and> \<not> list_ex isdigit ''abc'') \<or>
         (CHR ''1'' \<in> set SYMBOLS \<and> \<not> list_ex (\<lambda>c. c \<in> set SYMBOLS) ''abc'')"
    using abc_digit by blast
  from variety_score_monotone [OF h1 h2, of id None "[]" "[]" "[]"] h1 abc_digit
  show ?thesis by simp
qed


section \<open>C6: the candidate of eight letters a\<close>

lemma a8_keyboard: "keyboard_sequences (lower ''aaaaaaaa'') = []" by code_simp
lemma a8_numbers: "number_sequences ''aaaaaaaa'' = []" by code_simp
lemma a8_low_vowels: "low_vowels ''aaaaaaaa'' (lower ''aaaaaaaa'') = []" by code_simp
lemma a8_years: "year_patterns ''aaaaaaaa'' = []"
  by (rule year_patterns_no_digit) (simp add: digits_def)
lemma a8_symbols: "length (filter (\<lambda>c. c \<in> set SYMBOLS) ''aaaaaaaa'') = 0" by code_simp

lemma a8_detect:
  "detect_patterns ''aaaaaaaa'' =
     Inr (repeated_characters ''aaaaaaaa'' @ repeated_tokens ''aaaaaaaa'' @
          palindromes ''aaaaaaaa'' (lower ''aaaaaaaa'') @ alternating_patterns ''aaaaaaaa'')"
  unfolding detect_patterns_def Let_def
  by (simp only: a8_keyboard a8_numbers a8_low_vowels a8_years a8_symbols) simp

lemma a8_repeated_type: "map type (repeated_characters ''aaaaaaaa'') = [''repeated_character'']"
  by code_simp
lemma a8_token_type: "map type (repeated_tokens ''aaaaaaaa'') = [''repeated_token'']"
  by code_simp
lemma a8_palindrome_type:
  "map type (palindromes ''aaaaaaaa'' (lower ''aaaaaaaa'')) = [''palindrome'']"
  by code_simp
lemma a8_alternating_type:
  "map type (alternating_patterns ''aaaaaaaa'') = [''alternating_pattern'']"
  by code_simp

lemma a8_types:
  "finding_types (detect_patterns ''aaaaaaaa'') =
     [''repeated_character'', ''repeated_token'', ''palindrome'', ''alternating_pattern'']"
  by (simp add: finding_types_def a8_detect a8_repeated_type a8_token_type
        a8_palindrome_type a8_alternating_type)

lemma a8_repeated_pen:
  "map (\<lambda>pattern. penalty pattern * 10) (repeated_characters ''aaaaaaaa'') = [12]"
  by code_simp
lemma a8_token_pen:
  "map (\<lambda>pattern. penalty pattern * 10) (repeated_tokens ''aaaaaaaa'') = [4]"
  by code_simp
lemma a8_palindrome_pen:
  "map (\<lambda>pattern. penalty pattern * 10) (palindromes ''aaaaaaaa'' (lower ''aaaaaaaa'')) = [2]"
  by code_simp
lemma a8_alternating_pen:
  "map (\<lambda>pattern. penalty pattern * 10) (alternating_patterns ''aaaaaaaa'') = [3]"
  by code_simp

lemma a8_variety: "variety_count ''aaaaaaaa'' = 1" by code_simp
lemma a8_pron: "estimate_pronounceability ''aaaaaaaa'' = Inr (1 / 2)" by code_simp
lemma a8_remdups: "remdups (lower ''aaaaaaaa'') = ''a''" by code_simp
lemma a8_uniq: "uniqueness_score ''aaaaaaaa'' = 0"
  by (simp add: uniqueness_score_def Let_def a8_remdups)

lemma length_score_le: "length_score password \<le> 50"
  by (simp add: length_score_def Let_def)

lemma check_common_passwords_nonneg: "0 \<le> snd (check_common_passwords password)"
  by (simp add: check_common_passwords_def Let_def)

lemma check_confusing_chars_nonneg: "0 \<le> snd (check_confusing_chars password)"
  by (simp add: check_confusing_chars_def Let_def)

lemma check_password_reuse_nonneg: "0 \<le> snd (check_password_reuse sha256 h password)"
  by (simp add: check_password_reuse_def Let_def)


lemma a8_clamped:
  "clamped_score sha256 h ''aaaaaaaa'' [] (1 / 2)
     (repeated_characters ''aaaaaaaa'' @ repeated_tokens ''aaaaaaaa'' @
      palindromes ''aaaaaaaa'' (lower ''aaaaaaaa'') @ alternating_patterns ''aaaaaaaa'')
   \<le> 40.25"
proof -
  have pen: "sum_list (map (\<lambda>pattern. penalty pattern * 10)
               (repeated_characters ''aaaaaaaa'' @ repeated_tokens ''aaaaaaaa'' @
                palindromes ''aaaaaaaa'' (lower ''aaaaaaaa'') @
                alternating_patterns ''aaaaaaaa'')) = 21"
    by (simp add: a8_repeated_pen a8_token_pen a8_palindrome_pen a8_alternating_pen)
  have var: "variety_score ''aaaaaaaa'' = 6.25"
    by (simp add: variety_score_def a8_variety)
  have bonus: "bonus_points ''aaaaaaaa'' = 0"
    by (simp add: bonus_points_def a8_variety)
  have hint: "hint_relevance_score ''aaaaaaaa'' [] = 0"
    by (simp add: hint_relevance_score_def)
  have "length_score ''aaaaaaaa'' + variety_score ''aaaaaaaa'' + uniqueness_score ''aaaaaaaa'' +
        (1 / 2) * 10 + hint_relevance_score ''aaaaaaaa'' [] + bonus_points ''aaaaaaaa'' -
        sum_list (map (\<lambda>pattern. penalty pattern * 10)
               (repeated_characters ''aaaaaaaa'' @ repeated_tokens ''aaaaaaaa'' @
                palindromes ''aaaaaaaa'' (lower ''aaaaaaaa'') @
                alternating_patterns ''aaaaaaaa'')) -
        snd (check_common_passwords ''aaaaaaaa'') * 30 -
        snd (check_confusing_chars ''aaaaaaaa'') * 10 -
        snd (check_password_reuse sha256 h ''aaaaaaaa'') * 10 \<le> 40.25"
    using length_score_le [of "''aaaaaaaa''"]
      check_common_passwords_nonneg [of "''aaaaaaaa''"]
      check_confusing_chars_nonneg [of "''aaaaaaaa''"]
      check_password_reuse_nonneg [of sha256 h "''aaaaaaaa''"]
    by (simp only: pen var bonus hint a8_uniq) simp
  moreover have "max 0 (min 100 x) \<le> 40.25" if "x \<le> 40.25" for x :: real
    using that by simp
  ultimately show ?thesis
    unfolding clamped_score_def by blast
qed

lemma blended_below_60:
  assumes "zxcvbn_normalized zxcvbn password" "0 \<le> loc" "loc \<le> 40.25"
  shows "py_int (blended_score zxcvbn password loc) < 60"
proof -
  have low: "0 \<le> x \<Longrightarrow> x < 60 \<Longrightarrow> py_int x < 60" for x
    by (simp add: py_int_def floor_less_iff)
  show ?thesis
  proof (cases zxcvbn)
    case None
    with assms low [of loc] show ?thesis by (simp add: blended_score_def)
  next
    case (Some zxcvbn_call)
    note call = this
    show ?thesis
    proof (cases "zxcvbn_call password")
      case None
      with call assms low [of loc] show ?thesis by (simp add: blended_score_def)
    next
      case (Some r)
      with call assms(1) have r: "0 \<le> zx_score r" "zx_score r \<le> 4"
        by (simp_all add: zxcvbn_normalized_def)
      then have r': "0 \<le> real_of_int (zx_score r)" "real_of_int (zx_score r) \<le> 4"
        by simp_all
      have eq: "blended_score zxcvbn password loc =
                  real_of_int (py_int (loc * 0.7 + (real_of_int (zx_score r) / 4) * 100 * 0.3))"
        using call Some by (simp add: blended_score_def)
      have "0 \<le> loc * 0.7 + (real_of_int (zx_score r) / 4) * 100 * 0.3"
           "loc * 0.7 + (real_of_int (zx_score r) / 4) * 100 * 0.3 < 60"
        using assms(2,3) r' by simp_all
      then have "py_int (loc * 0.7 + (real_of_int (zx_score r) / 4) * 100 * 0.3) < 60"
        by (rule low)
      then show ?thesis by (simp only: eq py_int_of_int)
    qed
  qed
qed

text \<open>
  C6 as stated says that \<open>detect_patterns\<close> reports a low-vowel-density finding for
  \<open>aaaaaaaa\<close>. Every character of that candidate is the vowel \<open>a\<close>: the vowel fraction is
  1, not below 0.1, and no finding of type \<open>low_vowels\<close> is reported.
\<close>

theorem aaaaaaaa_no_low_vowels:
  "''low_vowels'' \<notin> set (finding_types (detect_patterns ''aaaaaaaa''))"
  by (simp add: a8_types)

text \<open>
  C6, amended. For \<open>aaaaaaaa\<close> the detector reports a repeated-character finding (with a
  repeated-token, a palindrome and an alternating-pattern finding) and no low-vowel
  finding, and \<open>is_valid_password\<close> returns false, whatever the ledger holds and whatever
  a normalised oracle answers.
\<close>

theorem aaaaaaaa_findings_invalid:
  "finding_types (detect_patterns ''aaaaaaaa'') =
     [''repeated_character'', ''repeated_token'', ''palindrome'', ''alternating_pattern''] \<and>
   (zxcvbn_normalized zxcvbn ''aaaaaaaa'' \<longrightarrow>
      (\<exists>h'. is_valid_password sha256 zxcvbn now h ''aaaaaaaa'' = Inr (False, h')))"
proof (intro conjI impI)
  show "finding_types (detect_patterns ''aaaaaaaa'') =
     [''repeated_character'', ''repeated_token'', ''palindrome'', ''alternating_pattern'']"
    by (rule a8_types)
next
  assume zx: "zxcvbn_normalized zxcvbn ''aaaaaaaa''"
  have ne: "''aaaaaaaa'' \<noteq> []" by simp
  from score_password_nonempty [OF ne, of sha256 zxcvbn now h "[]"]
  obtain pron patterns a where
    p: "estimate_pronounceability ''aaaaaaaa'' = Inr pron" and
    d: "detect_patterns ''aaaaaaaa'' = Inr patterns" and
    sp: "score_password sha256 zxcvbn now h ''aaaaaaaa'' [] =
           Inr (py_int (blended_score zxcvbn ''aaaaaaaa''
                          (clamped_score sha256 h ''aaaaaaaa'' [] pron patterns)),
                a,
                add_to_history sha256 now h ''aaaaaaaa''
                  (blended_score zxcvbn ''aaaaaaaa''
                     (clamped_score sha256 h ''aaaaaaaa'' [] pron patterns)))"
    by blast
  from p have pron: "pron = 1 / 2" by (simp add: a8_pron)
  from d have patterns: "patterns =
      repeated_characters ''aaaaaaaa'' @ repeated_tokens ''aaaaaaaa'' @
      palindromes ''aaaaaaaa'' (lower ''aaaaaaaa'') @ alternating_patterns ''aaaaaaaa''"
    by (simp add: a8_detect)
  have "clamped_score sha256 h ''aaaaaaaa'' [] pron patterns \<le> 40.25"
    unfolding pron patterns by (rule a8_clamped)
  moreover have "0 \<le> clamped_score sha256 h ''aaaaaaaa'' [] pron patterns"
    using clamped_score_range by blast
  ultimately have "py_int (blended_score zxcvbn ''aaaaaaaa''
                     (clamped_score sha256 h ''aaaaaaaa'' [] pron patterns)) < 60"
    using blended_below_60 [OF zx] by blast
  with sp show "\<exists>h'. is_valid_password sha256 zxcvbn now h ''aaaaaaaa'' = Inr (False, h')"
    by (simp add: is_valid_password_def)
qed

theorem aaaaaaaa_findings_invalid_witness:
  "zxcvbn_normalized None ''aaaaaaaa'' \<and>
   ''repeated_character'' \<in> set (finding_types (detect_patterns ''aaaaaaaa'')) \<and>
   (\<exists>h'. is_valid_password id None ''2025-01-01 00:00:00'' [] ''aaaaaaaa'' = Inr (False, h'))"
  using aaaaaaaa_findings_invalid [of None id "''2025-01-01 00:00:00''" "[]"]
  by (simp add: zxcvbn_normalized_def)


section \<open>C10: a validity check is recorded and later counts as reuse\<close>

lemma reuse_iff:
  "snd (check_password_reuse sha256 h password) * 10 =
     (if sha256 password \<in> fst ` set h then 5 else 0)"
  by (force simp add: check_password_reuse_def Let_def list_ex_iff image_iff)

lemma add_keeps_recent:
  assumes "d \<in> fst ` set (drop (length h - k) h)" "k < 50"
  shows "d \<in> fst ` set (drop (length (add_to_history sha256 now h password score) - Suc k)
                         (add_to_history sha256 now h password score))"
proof (cases "length h < 50")
  case True
  then have "add_to_history sha256 now h password score = h @ [(sha256 password, score, now)]"
    by (simp add: add_to_history_eq)
  moreover have "length h - k \<le> length h" by simp
  ultimately show ?thesis using assms(1) by (simp add: Suc_diff_le)
next
  case False
  then obtain x xs where h: "h = x # xs" by (cases h) auto
  with False have eq: "add_to_history sha256 now h password score =
                     xs @ [(sha256 password, score, now)]"
    by (simp add: add_to_history_eq)
  from False h assms(2) have "length h - k = Suc (length xs - k)" by simp
  with assms(1) h have "d \<in> fst ` set (drop (length xs - k) xs)" by simp
  then show ?thesis unfolding eq by simp
qed

lemma add_newest:
  "sha256 password \<in> fst ` set (drop (length (add_to_history sha256 now h password score) - Suc 0)
                         (add_to_history sha256 now h password score))"
proof (cases "length h < 50")
  case True
  then show ?thesis by (simp add: add_to_history_eq)
next
  case False
  then obtain x xs where h: "h = x # xs" by (cases h) auto
  with False show ?thesis by (simp add: add_to_history_eq)
qed

lemma drop_mono_set:
  "d \<in> fst ` set (drop (length h - k) h) \<Longrightarrow> k \<le> k' \<Longrightarrow>
   d \<in> fst ` set (drop (length h - k') h)"
proof -
  assume a: "d \<in> fst ` set (drop (length h - k) h)" and le: "k \<le> k'"
  have "length h - k' \<le> length h - k" using le by simp
  then have "set (drop (length h - k) h) \<subseteq> set (drop (length h - k') h)"
    by (rule set_drop_subset_set_drop)
  with a show ?thesis by blast
qed


lemma score_keeps_recent:
  assumes "d \<in> fst ` set (drop (length h - k) h)" "k < 50"
    and "score_password sha256 zxcvbn now h password hint = Inr (score, a, h')"
  shows "d \<in> fst ` set (drop (length h' - Suc k) h')"
proof -
  from score_password_result [of sha256 zxcvbn now h password hint] assms(3)
  obtain fs where h': "h' = (if password = [] then h else add_to_history sha256 now h password fs)"
    by auto
  show ?thesis
  proof (cases "password = []")
    case True
    with h' assms(1) drop_mono_set [of d h k "Suc k"] show ?thesis by simp
  next
    case False
    with h' add_keeps_recent [OF assms(1,2), of sha256 now password fs] show ?thesis by simp
  qed
qed

lemma scoring_calls_keep_recent:
  assumes "d \<in> fst ` set (drop (length h - k) h)" "k + length calls \<le> 50"
  shows "\<exists>h2. scoring_calls sha256 zxcvbn h calls = Inr h2 \<and>
              d \<in> fst ` set (drop (length h2 - (k + length calls)) h2)"
  using assms
proof (induction calls arbitrary: h k)
  case Nil
  then show ?case by simp
next
  case (Cons call calls)
  obtain password hint now where call: "call = (password, hint, now)" by (cases call)
  from score_password_result [of sha256 zxcvbn now h password hint]
  obtain score a h' where sp: "score_password sha256 zxcvbn now h password hint = Inr (score, a, h')"
    by blast
  from Cons.prems(2) have k: "k < 50" by simp
  from score_keeps_recent [OF Cons.prems(1) k sp]
  have d: "d \<in> fst ` set (drop (length h' - Suc k) h')" .
  from Cons.prems(2) have "Suc k + length calls \<le> 50" by simp
  from Cons.IH [OF d this]
  obtain h2 where "scoring_calls sha256 zxcvbn h' calls = Inr h2"
      "d \<in> fst ` set (drop (length h2 - (Suc k + length calls)) h2)"
    by blast
  with call sp show ?case by simp
qed

text \<open>The digests of the ledger after a run of scoring calls, from the digests before.\<close>

lemma add_to_history_digests:
  "map fst (add_to_history sha256 now h password score) =
     (if length (map fst h) < 50 then map fst h @ [sha256 password]
      else tl (map fst h @ [sha256 password]))"
  by (simp add: add_to_history_eq map_tl)

lemma digests_after_Cons:
  "digests_after sha256 ds ((password, hint, now) # calls) =
     digests_after sha256
       (if password = [] then ds
        else if length ds < 50 then ds @ [sha256 password]
        else tl (ds @ [sha256 password])) calls"
  by (simp add: digests_after_def)

lemma scoring_calls_digests:
  "\<exists>h2. scoring_calls sha256 zxcvbn h calls = Inr h2 \<and>
         map fst h2 = digests_after sha256 (map fst h) calls"
proof (induction calls arbitrary: h)
  case Nil
  show ?case by (simp add: digests_after_def)
next
  case (Cons call calls)
  obtain password hint now where call: "call = (password, hint, now)" by (cases call)
  from score_password_result [of sha256 zxcvbn now h password hint]
  obtain score a fs where
    sp: "score_password sha256 zxcvbn now h password hint =
           Inr (score, a, if password = [] then h else add_to_history sha256 now h password fs)"
    by blast
  let ?h' = "if password = [] then h else add_to_history sha256 now h password fs"
  have ds: "map fst ?h' =
          (if password = [] then map fst h
           else if length (map fst h) < 50 then map fst h @ [sha256 password]
           else tl (map fst h @ [sha256 password]))"
    by (simp only: add_to_history_digests if_distrib [of "map fst"] cong: if_cong)
  from Cons.IH [of ?h'] obtain h2 where
    h2: "scoring_calls sha256 zxcvbn ?h' calls = Inr h2"
        "map fst h2 = digests_after sha256 (map fst ?h') calls"
    by blast
  from h2(1) sp call have "scoring_calls sha256 zxcvbn h (call # calls) = Inr h2" by simp
  moreover from h2(2) call have "map fst h2 = digests_after sha256 (map fst h) (call # calls)"
    by (simp only: ds digests_after_Cons)
  ultimately show ?case by blast
qed

lemma fifty_other_digests:
  "digests_after id [''correct horse''] (replicate 50 (''zzzzzzzz'', [], ''t1'')) =
   replicate 50 ''zzzzzzzz''"
  by code_simp

text \<open>
  C10 as stated allows up to 50 scoring calls between the validity check and the later
  scoring call. The ledger holds 50 entries: after a validity check on a fresh engine
  and 50 scoring calls on another candidate, the entry of the validity check has been
  dropped, and scoring the checked candidate reports the reuse penalty 0. The digest is
  the identity here, which like SHA-256 keeps the two candidates apart.
\<close>

theorem reuse_forgotten_after_50_calls:
  "reuse_after_validity_check id None [] ''correct horse'' ''t0''
     (replicate 50 (''zzzzzzzz'', [], ''t1'')) [] ''t2'' = Inr (Some (Num 0))"
proof -
  have ne: "''correct horse'' \<noteq> []" by simp
  from score_password_result [of id None "''t0''" "[]" "''correct horse''" "[]"]
  obtain score a fs where
    sp: "score_password id None ''t0'' [] ''correct horse'' [] =
           Inr (score, a, add_to_history id ''t0'' [] ''correct horse'' fs)"
    by (simp only: ne if_False) blast
  let ?h1 = "add_to_history id ''t0'' [] ''correct horse'' fs"
  have h1: "map fst ?h1 = [''correct horse'']" by (simp add: add_to_history_eq)
  have "\<not> length ''correct horse'' < 8" by simp
  then have valid: "is_valid_password id None ''t0'' [] ''correct horse'' =
                         Inr (score \<ge> 60, ?h1)"
    unfolding is_valid_password_def by (simp only: sp if_False sum.case prod.case)
  from scoring_calls_digests [of id None ?h1 "replicate 50 (''zzzzzzzz'', [], ''t1'')"]
  obtain h2 where
    calls: "scoring_calls id None ?h1 (replicate 50 (''zzzzzzzz'', [], ''t1'')) = Inr h2" and
    "map fst h2 = digests_after id (map fst ?h1) (replicate 50 (''zzzzzzzz'', [], ''t1''))"
    by blast
  then have digests: "map fst h2 = replicate 50 ''zzzzzzzz''"
    by (simp only: h1 fifty_other_digests)
  have "fst ` set h2 = set (map fst h2)" by simp
  also have "\<dots> = set (replicate 50 ''zzzzzzzz'')" by (simp only: digests)
  also have "\<dots> = {''zzzzzzzz''}" by simp
  finally have "id ''correct horse'' \<notin> fst ` set h2" by simp
  then have reuse: "snd (check_password_reuse id h2 ''correct horse'') * 10 = 0"
    by (simp only: reuse_iff if_False)
  from score_password_nonempty [OF ne, of id None "''t2''" h2 "[]"]
  obtain score' a' h3 where
    last: "score_password id None ''t2'' h2 ''correct horse'' [] = Inr (score', a', h3)" and
    pen: "a' ''reuse_penalty'' =
            Some (Num (snd (check_password_reuse id h2 ''correct horse'') * 10))"
    by blast
  show ?thesis
    unfolding reuse_after_validity_check_def
    by (simp only: valid calls last pen reuse sum.case prod.case)
qed

text \<open>
  C10, amended. \<open>is_valid_password\<close> on a candidate of eight characters or more calls
  \<open>score_password\<close> and so records an entry for the candidate. A later scoring call on
  the same candidate, after at most 49 scoring calls in between, reports the reuse
  penalty 5 (that is \<open>0.5 * 10\<close>), whatever the ledger held before, whatever the calls
  in between were, and for every digest function.
\<close>

theorem validity_check_records_reuse:
  assumes "8 \<le> length password" "length calls \<le> 49"
  shows "(\<exists>b fs. is_valid_password sha256 zxcvbn now h password =
                   Inr (b, add_to_history sha256 now h password fs)) \<and>
         reuse_after_validity_check sha256 zxcvbn h password now calls hint now' =
           Inr (Some (Num 5))"
proof -
  from assms(1) have ne: "password \<noteq> []" by auto
  from score_password_result [of sha256 zxcvbn now h password "[]"] ne
  obtain score a fs where
    sp: "score_password sha256 zxcvbn now h password [] =
           Inr (score, a, add_to_history sha256 now h password fs)"
    by auto
  let ?h1 = "add_to_history sha256 now h password fs"
  from sp assms(1) have valid: "is_valid_password sha256 zxcvbn now h password =
                                  Inr (score \<ge> 60, ?h1)"
    by (simp add: is_valid_password_def)
  have d1: "sha256 password \<in> fst ` set (drop (length ?h1 - Suc 0) ?h1)"
    by (rule add_newest)
  from assms(2) have "Suc 0 + length calls \<le> 50" by simp
  from scoring_calls_keep_recent [OF d1 this, of sha256 zxcvbn]
  obtain h2 where calls: "scoring_calls sha256 zxcvbn ?h1 calls = Inr h2"
    and "sha256 password \<in> fst ` set (drop (length h2 - (Suc 0 + length calls)) h2)"
    by blast
  then have "sha256 password \<in> fst ` set h2"
    using set_drop_subset [of "length h2 - (Suc 0 + length calls)" h2] by blast
  then have reuse: "snd (check_password_reuse sha256 h2 password) * 10 = 5"
    by (simp add: reuse_iff)
  from score_password_nonempty [OF ne, of sha256 zxcvbn now' h2 hint]
  obtain score' a' h3 where
    "score_password sha256 zxcvbn now' h2 password hint = Inr (score', a', h3)"
    "a' ''reuse_penalty'' = Some (Num (snd (check_password_reuse sha256 h2 password) * 10))"
    by blast
  with reuse valid calls
  have "reuse_after_validity_check sha256 zxcvbn h password now calls hint now' =
           Inr (Some (Num 5))"
    by (simp add: reuse_after_validity_check_def)
  with valid show ?thesis by blast
qed

theorem validity_check_records_reuse_witness:
  "8 \<le> length ''correct horse'' \<and> length [(''zzzzzzzz'', [], ''t1'')] \<le> 49 \<and>
   reuse_after_validity_check id None [] ''correct horse'' ''t0''
     [(''zzzzzzzz'', [], ''t1'')] [] ''t2'' = Inr (Some (Num 5))"
  using validity_check_records_reuse
    [of "''correct horse''" "[(''zzzzzzzz'', [], ''t1'')]" id None "''t0''" "[]" "[]" "''t2''"]
  by simp




end
